theory Spec2Isabelle
  imports Main
begin

unbundle bit_operations_syntax

section \<open>The HID transport\<close>

text \<open>
  The source talks to the keyboard through \<^verbatim>\<open>hid.device.write\<close>, which either
  returns or raises. The device handle is modelled by the frames handed to
  \<^verbatim>\<open>write\<close> so far, in order, and by an oracle that says whether the
  \<open>n\<close>-th call of \<^verbatim>\<open>write\<close> (counted from 0) returns for a given frame
  (\<open>True\<close>) or raises (\<open>False\<close>). A frame is a Python list of ints.
\<close>

record hid_device =
  accepts :: "nat \<Rightarrow> int list \<Rightarrow> bool"
  frames :: "int list list"

definition hid_write :: "hid_device \<Rightarrow> int list \<Rightarrow> bool \<times> hid_device" where
  "hid_write d frame =
     (accepts d (length (frames d)) frame, d\<lparr>frames := frames d @ [frame]\<rparr>)"

section \<open>Enumerations\<close>

datatype KeyType = BASIC | MEDIA | MOUSE | LED

fun KeyType_value :: "KeyType \<Rightarrow> int" where
  "KeyType_value BASIC = 1"
| "KeyType_value MEDIA = 2"
| "KeyType_value MOUSE = 3"
| "KeyType_value LED = 8"

datatype Modifier = NONE | CTRL | SHIFT | ALT | WIN | RCTRL | RSHIFT | RALT | RWIN

fun Modifier_value :: "Modifier \<Rightarrow> int" where
  "Modifier_value NONE = 0"
| "Modifier_value CTRL = 1"
| "Modifier_value SHIFT = 2"
| "Modifier_value ALT = 4"
| "Modifier_value WIN = 8"
| "Modifier_value RCTRL = 16"
| "Modifier_value RSHIFT = 32"
| "Modifier_value RALT = 64"
| "Modifier_value RWIN = 128"

section \<open>The device session: class MiniKeyboard\<close>

record MiniKeyboard =
  device :: "hid_device option"
  report_id :: int

text \<open>\<^verbatim>\<open>__init__\<close>: no device, report id 3.\<close>

definition init_keyboard :: MiniKeyboard where
  "init_keyboard = \<lparr>device = None, report_id = 3\<rparr>"

text \<open>
  \<^verbatim>\<open>_detect_version\<close>: the loop over \<^verbatim>\<open>[3, 0, 2]\<close>. Each round writes
  \<^verbatim>\<open>[rid] + [0] * 8\<close>; the first write that does not raise ends the loop with that
  report id. \<open>None\<close> is the loop running out.
\<close>

fun detect_loop :: "int list \<Rightarrow> hid_device \<Rightarrow> int option \<times> hid_device" where
  "detect_loop [] d = (None, d)"
| "detect_loop (rid # rids) d =
     (case hid_write d ([rid] @ replicate 8 0) of
        (True, d') \<Rightarrow> (Some rid, d')
      | (False, d') \<Rightarrow> detect_loop rids d')"

text \<open>
  With no device, \<^verbatim>\<open>self.device.write\<close> raises on \<^verbatim>\<open>None\<close>, the loop catches it
  three times, and the default 3 is stored.
\<close>

definition detect_version :: "MiniKeyboard \<Rightarrow> MiniKeyboard" where
  "detect_version s =
     (case device s of
        None \<Rightarrow> s\<lparr>report_id := 3\<rparr>
      | Some d \<Rightarrow>
          (case detect_loop [3, 0, 2] d of
             (Some rid, d') \<Rightarrow> s\<lparr>device := Some d', report_id := rid\<rparr>
           | (None, d') \<Rightarrow> s\<lparr>device := Some d', report_id := 3\<rparr>))"

text \<open>\<^verbatim>\<open>_write_report\<close>: \<^verbatim>\<open>report = (data + [0] * 8)[:8]\<close>, then one write.\<close>

definition write_report :: "MiniKeyboard \<Rightarrow> int list \<Rightarrow> bool \<times> MiniKeyboard" where
  "write_report s data =
     (case device s of
        None \<Rightarrow> (False, s)
      | Some d \<Rightarrow>
          (let report = take 8 (data @ replicate 8 0);
               (ok, d') = hid_write d ([report_id s] @ report)
           in (ok, s\<lparr>device := Some d'\<rparr>)))"

definition send_layer_switch :: "MiniKeyboard \<Rightarrow> int \<Rightarrow> bool \<times> MiniKeyboard" where
  "send_layer_switch s layer =
     (let layer = (if layer < 1 then 1 else layer)
      in write_report s [0xA1, layer, 0, 0, 0, 0, 0, 0])"

definition send_flash_command :: "MiniKeyboard \<Rightarrow> bool \<Rightarrow> bool \<times> MiniKeyboard" where
  "send_flash_command s is_led =
     (let second_byte = (if is_led then 0xA1 else 0xAA)
      in write_report s [0xAA, second_byte, 0, 0, 0, 0, 0, 0])"

text \<open>
  \<^verbatim>\<open>set_basic_key\<close>. The result of \<^verbatim>\<open>_send_layer_switch\<close> is dropped by the
  source; only its effect on the device is kept. \<^verbatim>\<open>layer << 4\<close> on a Python int
  is \<open>push_bit 4\<close> on \<open>int\<close>.
\<close>

definition set_basic_key ::
  "MiniKeyboard \<Rightarrow> int \<Rightarrow> int \<Rightarrow> int \<Rightarrow> int \<Rightarrow> bool \<times> MiniKeyboard" where
  "set_basic_key s physical_key keycode modifiers layer =
     (case device s of
        None \<Rightarrow> (False, s)
      | Some _ \<Rightarrow>
          (let s1 = (if report_id s \<noteq> 0 then snd (send_layer_switch s layer) else s);
               key_type = KeyType_value BASIC;
               type_byte = (if report_id s1 = 0 then key_type AND 0x0F
                            else push_bit 4 layer OR (key_type AND 0x0F));
               data = [physical_key, type_byte, 1, 0, modifiers, keycode, 0, 0];
               (ok, s2) = write_report s1 data
           in if \<not> ok then (False, s2) else send_flash_command s2 False))"

definition set_media_key ::
  "MiniKeyboard \<Rightarrow> int \<Rightarrow> int \<Rightarrow> int \<Rightarrow> bool \<times> MiniKeyboard" where
  "set_media_key s physical_key media_keycode layer =
     (case device s of
        None \<Rightarrow> (False, s)
      | Some _ \<Rightarrow>
          (let s1 = (if report_id s \<noteq> 0 then snd (send_layer_switch s layer) else s);
               key_type = KeyType_value MEDIA;
               type_byte = (if report_id s1 = 0 then key_type AND 0x0F
                            else push_bit 4 layer OR (key_type AND 0x0F));
               data = [physical_key, type_byte, media_keycode, 0, 0, 0, 0, 0];
               (ok, s2) = write_report s1 data
           in if \<not> ok then (False, s2) else send_flash_command s2 False))"

definition set_led_mode :: "MiniKeyboard \<Rightarrow> int \<Rightarrow> bool \<times> MiniKeyboard" where
  "set_led_mode s mode =
     (case device s of
        None \<Rightarrow> (False, s)
      | Some _ \<Rightarrow>
          (let key_type = KeyType_value LED;
               type_byte = key_type AND 0x0F;
               data = [0xB0, type_byte, mode, 0, 0, 0, 0, 0];
               (ok, s1) = write_report s data
           in if \<not> ok then (False, s1) else send_flash_command s1 True))"

definition is_connected :: "MiniKeyboard \<Rightarrow> bool" where
  "is_connected s = (device s \<noteq> None)"

section \<open>Symbol tables\<close>

text \<open>
  The dictionaries \<^verbatim>\<open>KEYCODES\<close> and \<^verbatim>\<open>MEDIA_KEYCODES\<close> as association lists in the
  order of the source, read with \<open>map_of\<close>. No key occurs twice in either literal
  (\<open>KEYCODES_distinct\<close>, \<open>MEDIA_KEYCODES_distinct\<close> below), so the first match of
  \<open>map_of\<close> is the dictionary's entry. The backslash and the single quote are written
  by their codes.
\<close>

definition KEYCODES :: "(string \<times> int) list" where
  "KEYCODES =
    [(''a'', 4), (''b'', 5), (''c'', 6), (''d'', 7), (''e'', 8), (''f'', 9), (''g'', 10),
     (''h'', 11), (''i'', 12), (''j'', 13), (''k'', 14), (''l'', 15), (''m'', 16),
     (''n'', 17), (''o'', 18), (''p'', 19), (''q'', 20), (''r'', 21), (''s'', 22),
     (''t'', 23), (''u'', 24), (''v'', 25), (''w'', 26), (''x'', 27), (''y'', 28),
     (''z'', 29),
     (''1'', 30), (''2'', 31), (''3'', 32), (''4'', 33), (''5'', 34),
     (''6'', 35), (''7'', 36), (''8'', 37), (''9'', 38), (''0'', 39),
     (''enter'', 40), (''return'', 40),
     (''escape'', 41), (''esc'', 41),
     (''backspace'', 42),
     (''tab'', 43),
     (''space'', 44),
     (''minus'', 45), (''-'', 45),
     (''equal'', 46), (''='', 46),
     (''leftbracket'', 47), (''['', 47),
     (''rightbracket'', 48), ('']'', 48),
     (''backslash'', 49), ([CHR 0x5C], 49),
     (''semicolon'', 51), ('';'', 51),
     (''quote'', 52), ([CHR 0x27], 52),
     (''grave'', 53), (''`'', 53),
     (''comma'', 54), ('','', 54),
     (''period'', 55), (''.'', 55),
     (''slash'', 56), (''/'', 56),
     (''capslock'', 57),
     (''f1'', 58), (''f2'', 59), (''f3'', 60), (''f4'', 61), (''f5'', 62), (''f6'', 63),
     (''f7'', 64), (''f8'', 65), (''f9'', 66), (''f10'', 67), (''f11'', 68), (''f12'', 69),
     (''printscreen'', 70), (''prtsc'', 70),
     (''scrolllock'', 71),
     (''pause'', 72), (''break'', 72),
     (''insert'', 73),
     (''home'', 74),
     (''pageup'', 75), (''pgup'', 75),
     (''delete'', 76), (''del'', 76),
     (''end'', 77),
     (''pagedown'', 78), (''pgdn'', 78),
     (''right'', 79), (''left'', 80), (''down'', 81), (''up'', 82),
     (''numlock'', 83),
     (''kp_divide'', 84), (''kp_multiply'', 85), (''kp_minus'', 86), (''kp_plus'', 87),
     (''kp_enter'', 88),
     (''kp_1'', 89), (''kp_2'', 90), (''kp_3'', 91), (''kp_4'', 92), (''kp_5'', 93),
     (''kp_6'', 94), (''kp_7'', 95), (''kp_8'', 96), (''kp_9'', 97), (''kp_0'', 98),
     (''kp_period'', 99), (''kp_dot'', 99),
     (''menu'', 101), (''app'', 101)]"

definition MEDIA_KEYCODES :: "(string \<times> int) list" where
  "MEDIA_KEYCODES =
    [(''play'', 205), (''pause'', 205), (''playpause'', 205),
     (''stop'', 183),
     (''prev'', 182), (''previous'', 182),
     (''next'', 181),
     (''mute'', 226),
     (''volup'', 233), (''volumeup'', 233),
     (''voldown'', 234), (''volumedown'', 234)]"

section \<open>The key combo parser\<close>

text \<open>
  A combo string is a list of \<open>char\<close>, one per character, read as the 256 characters
  U+0000 to U+00FF (Latin-1); characters beyond U+00FF are outside the model. On these,
  \<^verbatim>\<open>str.lower\<close> adds 32 to \<open>A\<close>..\<open>Z\<close> (65 to 90) and to the accented capitals 192 to
  222 except the multiplication sign 215, and leaves every other character alone;
  \<^verbatim>\<open>str.isalpha\<close> holds of \<open>A\<close>..\<open>Z\<close>, \<open>a\<close>..\<open>z\<close>, the ordinal indicators 170 and
  186, the micro sign 181, and 192 to 255 except 215 and the division sign 247.
\<close>

definition char_lower :: "char \<Rightarrow> char" where
  "char_lower c =
     (let n = (of_char c :: nat)
      in if (65 \<le> n \<and> n \<le> 90) \<or> (192 \<le> n \<and> n \<le> 222 \<and> n \<noteq> 215)
         then char_of (n + 32) else c)"

definition char_isalpha :: "char \<Rightarrow> bool" where
  "char_isalpha c =
     (let n = (of_char c :: nat)
      in (65 \<le> n \<and> n \<le> 90) \<or> (97 \<le> n \<and> n \<le> 122)
         \<or> n = 170 \<or> n = 181 \<or> n = 186
         \<or> (192 \<le> n \<and> n \<le> 214) \<or> (216 \<le> n \<and> n \<le> 246) \<or> 248 \<le> n)"

definition str_lower :: "string \<Rightarrow> string" where
  "str_lower s = map char_lower s"

definition str_isalpha :: "string \<Rightarrow> bool" where
  "str_isalpha s = (s \<noteq> [] \<and> list_all char_isalpha s)"

definition remove_spaces :: "string \<Rightarrow> string" where
  "remove_spaces s = filter (\<lambda>c. c \<noteq> CHR '' '') s"

text \<open>
  \<^verbatim>\<open>str.split(sep)\<close> for a separator of one character: the empty string gives one
  empty part, and every separator starts a new part.
\<close>

fun str_split :: "char \<Rightarrow> string \<Rightarrow> string list" where
  "str_split sep [] = [[]]"
| "str_split sep (c # cs) =
     (if c = sep then [] # str_split sep cs
      else (case str_split sep cs of [] \<Rightarrow> [[c]] | p # ps \<Rightarrow> (c # p) # ps))"

text \<open>
  One round of the loop of \<^verbatim>\<open>parse_key_combo\<close> over the state
  \<open>(modifiers, keycode)\<close>. In the last \<^verbatim>\<open>elif\<close> the part is known not to be in
  \<^verbatim>\<open>KEYCODES\<close>, so \<^verbatim>\<open>KEYCODES.get(part, 0)\<close> is 0.
\<close>

fun combo_step :: "int \<times> int \<Rightarrow> string \<Rightarrow> int \<times> int" where
  "combo_step (modifiers, keycode) part =
     (if part = ''ctrl'' \<or> part = ''control'' then (modifiers OR Modifier_value CTRL, keycode)
      else if part = ''shift'' then (modifiers OR Modifier_value SHIFT, keycode)
      else if part = ''alt'' then (modifiers OR Modifier_value ALT, keycode)
      else if part = ''win'' \<or> part = ''super'' \<or> part = ''meta'' \<or> part = ''gui''
        then (modifiers OR Modifier_value WIN, keycode)
      else (case map_of KEYCODES part of
              Some k \<Rightarrow> (modifiers, k)
            | None \<Rightarrow>
                if length part = 1 \<and> str_isalpha part then (modifiers, 0)
                else (modifiers, keycode)))"

definition combo_parts :: "string \<Rightarrow> string list" where
  "combo_parts combo_str = str_split CHR ''+'' (remove_spaces (str_lower combo_str))"

definition parse_key_combo :: "string \<Rightarrow> int \<times> int" where
  "parse_key_combo combo_str = foldl combo_step (0, 0) (combo_parts combo_str)"

subsection \<open>The parser with its raising operation written out\<close>

text \<open>
  The one operation of \<^verbatim>\<open>parse_key_combo\<close> that can raise is the subscription
  \<^verbatim>\<open>KEYCODES[part]\<close>, a \<^verbatim>\<open>KeyError\<close> on a missing key; the string methods, \<^verbatim>\<open>len\<close>,
  \<^verbatim>\<open>in\<close>, \<^verbatim>\<open>dict.get\<close> and \<^verbatim>\<open>|=\<close> on ints do not. Here the membership test and the
  subscription are kept apart as in the source, the subscription returns an error value
  on a missing key, and the loop stops at the first error as the exception would.
\<close>

datatype py_error = KeyError string

definition dict_contains :: "(string \<times> int) list \<Rightarrow> string \<Rightarrow> bool" where
  "dict_contains table key = (map_of table key \<noteq> None)"

definition dict_subscript :: "(string \<times> int) list \<Rightarrow> string \<Rightarrow> py_error + int" where
  "dict_subscript table key =
     (case map_of table key of None \<Rightarrow> Inl (KeyError key) | Some v \<Rightarrow> Inr v)"

definition dict_get :: "(string \<times> int) list \<Rightarrow> string \<Rightarrow> int \<Rightarrow> int" where
  "dict_get table key dflt = (case map_of table key of None \<Rightarrow> dflt | Some v \<Rightarrow> v)"

fun combo_step_exc :: "int \<times> int \<Rightarrow> string \<Rightarrow> py_error + int \<times> int" where
  "combo_step_exc (modifiers, keycode) part =
     (if part = ''ctrl'' \<or> part = ''control'' then Inr (modifiers OR Modifier_value CTRL, keycode)
      else if part = ''shift'' then Inr (modifiers OR Modifier_value SHIFT, keycode)
      else if part = ''alt'' then Inr (modifiers OR Modifier_value ALT, keycode)
      else if part = ''win'' \<or> part = ''super'' \<or> part = ''meta'' \<or> part = ''gui''
        then Inr (modifiers OR Modifier_value WIN, keycode)
      else if dict_contains KEYCODES part
        then (case dict_subscript KEYCODES part of
                Inl e \<Rightarrow> Inl e
              | Inr k \<Rightarrow> Inr (modifiers, k))
      else if length part = 1 \<and> str_isalpha part
        then Inr (modifiers, dict_get KEYCODES part 0)
      else Inr (modifiers, keycode))"

fun combo_loop_exc :: "int \<times> int \<Rightarrow> string list \<Rightarrow> py_error + int \<times> int" where
  "combo_loop_exc st [] = Inr st"
| "combo_loop_exc st (part # parts) =
     (case combo_step_exc st part of
        Inl e \<Rightarrow> Inl e
      | Inr st' \<Rightarrow> combo_loop_exc st' parts)"

definition parse_key_combo_exc :: "string \<Rightarrow> py_error + int \<times> int" where
  "parse_key_combo_exc combo_str = combo_loop_exc (0, 0) (combo_parts combo_str)"

subsection \<open>Vocabulary for the statements about the parser\<close>

text \<open>The modifier names the loop tests for, with the flag each one sets.\<close>

definition modifier_flag :: "string \<Rightarrow> Modifier option" where
  "modifier_flag part =
     (if part = ''ctrl'' \<or> part = ''control'' then Some CTRL
      else if part = ''shift'' then Some SHIFT
      else if part = ''alt'' then Some ALT
      else if part = ''win'' \<or> part = ''super'' \<or> part = ''meta'' \<or> part = ''gui'' then Some WIN
      else None)"

text \<open>A part is recognized when it is a modifier name or a key of \<^verbatim>\<open>KEYCODES\<close>.\<close>

definition recognized :: "string \<Rightarrow> bool" where
  "recognized part = (modifier_flag part \<noteq> None \<or> map_of KEYCODES part \<noteq> None)"

text \<open>
  The unrecognized parts the loop passes over: those that are not a single alphabetic
  character either, so that no branch of the loop is taken.
\<close>

definition passed_over :: "string \<Rightarrow> bool" where
  "passed_over part =
     (\<not> recognized part \<and> \<not> (length part = 1 \<and> str_isalpha part))"

text \<open>
  \<open>respelling s t\<close>: the string \<open>s\<close> is \<open>t\<close> with spaces inserted anywhere and the
  case of any of its letters changed.
\<close>

fun respelling :: "string \<Rightarrow> string \<Rightarrow> bool" where
  "respelling [] t = (t = [])"
| "respelling (c # s) t =
     ((c = CHR '' '' \<and> respelling s t) \<or>
      (case t of [] \<Rightarrow> False | d # t' \<Rightarrow> char_lower c = char_lower d \<and> respelling s t'))"

subsection \<open>Vocabulary for the statements about the session\<close>

text \<open>The frames a session has handed to its device so far; none without a device.\<close>

definition frames_sent :: "MiniKeyboard \<Rightarrow> int list list" where
  "frames_sent s = (case device s of None \<Rightarrow> [] | Some d \<Rightarrow> frames d)"

definition nine_bytes :: "MiniKeyboard \<Rightarrow> bool" where
  "nine_bytes s = list_all (\<lambda>f. length f = 9) (frames_sent s)"

text \<open>A device that has been handed nothing yet and whose writes never raise.\<close>

definition fresh_device :: hid_device where
  "fresh_device = \<lparr>accepts = (\<lambda>n f. True), frames = []\<rparr>"

section \<open>What the session operations write\<close>

lemma write_report_open:
  "device s = Some d \<Longrightarrow>
   write_report s data =
     (accepts d (length (frames d)) (report_id s # take 8 (data @ replicate 8 0)),
      s\<lparr>device := Some (d\<lparr>frames := frames d @ [report_id s # take 8 (data @ replicate 8 0)]\<rparr>)\<rparr>)"
  by (simp add: write_report_def hid_write_def Let_def)

lemma write_report_closed: "device s = None \<Longrightarrow> write_report s data = (False, s)"
  by (simp add: write_report_def)

lemma set_basic_key_open:
  assumes "device s = Some d"
  shows "set_basic_key s pk kc m l =
    (let n = length (frames d); rid = report_id s;
         pre = (if rid \<noteq> 0 then [[rid, 0xA1, (if l < 1 then 1 else l), 0, 0, 0, 0, 0, 0]] else []);
         kf = [rid, pk, (if rid = 0 then 1 else push_bit 4 l OR 1), 1, 0, m, kc, 0, 0];
         fl = [rid, 0xAA, 0xAA, 0, 0, 0, 0, 0, 0]
     in if accepts d (n + length pre) kf
        then (accepts d (n + length pre + 1) fl,
              s\<lparr>device := Some (d\<lparr>frames := frames d @ pre @ [kf, fl]\<rparr>)\<rparr>)
        else (False, s\<lparr>device := Some (d\<lparr>frames := frames d @ pre @ [kf]\<rparr>)\<rparr>))"
  using assms
  by (simp add: set_basic_key_def send_layer_switch_def send_flash_command_def
      write_report_open Let_def)

lemma set_media_key_open:
  assumes "device s = Some d"
  shows "set_media_key s pk mc l =
    (let n = length (frames d); rid = report_id s;
         pre = (if rid \<noteq> 0 then [[rid, 0xA1, (if l < 1 then 1 else l), 0, 0, 0, 0, 0, 0]] else []);
         kf = [rid, pk, (if rid = 0 then 2 else push_bit 4 l OR 2), mc, 0, 0, 0, 0, 0];
         fl = [rid, 0xAA, 0xAA, 0, 0, 0, 0, 0, 0]
     in if accepts d (n + length pre) kf
        then (accepts d (n + length pre + 1) fl,
              s\<lparr>device := Some (d\<lparr>frames := frames d @ pre @ [kf, fl]\<rparr>)\<rparr>)
        else (False, s\<lparr>device := Some (d\<lparr>frames := frames d @ pre @ [kf]\<rparr>)\<rparr>))"
  using assms
  by (simp add: set_media_key_def send_layer_switch_def send_flash_command_def
      write_report_open Let_def)

lemma set_led_mode_open:
  assumes "device s = Some d"
  shows "set_led_mode s mode =
    (let n = length (frames d); rid = report_id s;
         lf = [rid, 0xB0, 8, mode, 0, 0, 0, 0, 0];
         fl = [rid, 0xAA, 0xA1, 0, 0, 0, 0, 0, 0]
     in if accepts d n lf
        then (accepts d (n + 1) fl, s\<lparr>device := Some (d\<lparr>frames := frames d @ [lf, fl]\<rparr>)\<rparr>)
        else (False, s\<lparr>device := Some (d\<lparr>frames := frames d @ [lf]\<rparr>)\<rparr>))"
  using assms
  by (simp add: set_led_mode_def send_flash_command_def write_report_open Let_def)


lemma detect_loop_3_0_2:
  "detect_loop [3, 0, 2] d =
    (let n = length (frames d);
         p3 = 3 # replicate 8 0; p0 = 0 # replicate 8 0; p2 = 2 # replicate 8 0
     in if accepts d n p3 then (Some 3, d\<lparr>frames := frames d @ [p3]\<rparr>)
        else if accepts d (n + 1) p0 then (Some 0, d\<lparr>frames := frames d @ [p3, p0]\<rparr>)
        else if accepts d (n + 2) p2 then (Some 2, d\<lparr>frames := frames d @ [p3, p0, p2]\<rparr>)
        else (None, d\<lparr>frames := frames d @ [p3, p0, p2]\<rparr>))"
  by (simp add: hid_write_def Let_def)

lemma report_id_write_report: "report_id (snd (write_report s data)) = report_id s"
  by (cases "device s") (simp_all add: write_report_open write_report_closed)

lemma report_id_set_basic_key: "report_id (snd (set_basic_key s pk kc m l)) = report_id s"
  by (cases "device s") (simp_all add: set_basic_key_open Let_def, simp add: set_basic_key_def)

lemma report_id_set_media_key: "report_id (snd (set_media_key s pk mc l)) = report_id s"
  by (cases "device s") (simp_all add: set_media_key_open Let_def, simp add: set_media_key_def)

lemma report_id_set_led_mode: "report_id (snd (set_led_mode s mode)) = report_id s"
  by (cases "device s") (simp_all add: set_led_mode_open Let_def, simp add: set_led_mode_def)

lemma frames_sent_open: "device s = Some d \<Longrightarrow> frames_sent s = frames d"
  by (simp add: frames_sent_def)

lemma nine_bytes_write_report: "nine_bytes s \<Longrightarrow> nine_bytes (snd (write_report s data))"
  by (cases "device s")
     (simp_all add: write_report_open write_report_closed nine_bytes_def frames_sent_def)

lemma nine_bytes_set_basic_key:
  "nine_bytes s \<Longrightarrow> nine_bytes (snd (set_basic_key s pk kc m l))"
proof (cases "device s")
  case None
  assume "nine_bytes s"
  with None show ?thesis by (simp add: set_basic_key_def)
next
  case (Some d)
  assume "nine_bytes s"
  with Some show ?thesis
    by (simp add: set_basic_key_open nine_bytes_def frames_sent_def Let_def)
qed

lemma nine_bytes_set_media_key:
  "nine_bytes s \<Longrightarrow> nine_bytes (snd (set_media_key s pk mc l))"
proof (cases "device s")
  case None
  assume "nine_bytes s"
  with None show ?thesis by (simp add: set_media_key_def)
next
  case (Some d)
  assume "nine_bytes s"
  with Some show ?thesis
    by (simp add: set_media_key_open nine_bytes_def frames_sent_def Let_def)
qed

lemma nine_bytes_set_led_mode:
  "nine_bytes s \<Longrightarrow> nine_bytes (snd (set_led_mode s mode))"
proof (cases "device s")
  case None
  assume "nine_bytes s"
  with None show ?thesis by (simp add: set_led_mode_def)
next
  case (Some d)
  assume "nine_bytes s"
  with Some show ?thesis
    by (simp add: set_led_mode_open nine_bytes_def frames_sent_def Let_def)
qed

lemma nine_bytes_detect_version: "nine_bytes s \<Longrightarrow> nine_bytes (detect_version s)"
proof (cases "device s")
  case None
  assume "nine_bytes s"
  with None show ?thesis by (simp add: detect_version_def nine_bytes_def frames_sent_def)
next
  case (Some d)
  assume "nine_bytes s"
  with Some show ?thesis
    by (simp add: detect_version_def detect_loop_3_0_2 nine_bytes_def frames_sent_def Let_def
        del: detect_loop.simps)
qed

lemma report_padding:
  "length (take 8 (data @ replicate 8 (0::int))) = 8"
  "length data \<le> 8 \<Longrightarrow> take 8 (data @ replicate 8 (0::int)) = data @ replicate (8 - length data) 0"
  "8 \<le> length data \<Longrightarrow> take 8 (data @ replicate 8 (0::int)) = take 8 data"
  by simp_all

text \<open>
  C8. With no open device, \<open>set_basic_key\<close>, \<open>set_media_key\<close> and \<open>set_led_mode\<close>
  return \<open>False\<close> and leave the session as it was: nothing is written.
\<close>

theorem not_connected_fails:
  assumes "device s = None"
  shows "set_basic_key s pk kc m l = (False, s)
       \<and> set_media_key s pk mc l = (False, s)
       \<and> set_led_mode s mode = (False, s)
       \<and> frames_sent s = []"
  using assms
  by (simp add: set_basic_key_def set_media_key_def set_led_mode_def frames_sent_def)

theorem not_connected_fails_witness:
  "device init_keyboard = None
   \<and> set_basic_key init_keyboard 1 4 3 2 = (False, init_keyboard)
   \<and> set_media_key init_keyboard 1 233 2 = (False, init_keyboard)
   \<and> set_led_mode init_keyboard 2 = (False, init_keyboard)"
proof -
  have h: "device init_keyboard = None" by (simp add: init_keyboard_def)
  from not_connected_fails [OF h, where pk = 1 and kc = 4 and m = 3 and l = 2 and mc = 233 and mode = 2] h
  show ?thesis by simp
qed

text \<open>
  C1. On a connected session whose device takes the key packet, \<open>set_basic_key\<close>
  under a report id other than 0 (the Modern dialect: 2 or 3) writes exactly three frames,
  the layer switch, the key packet
  \<open>[slot, (layer << 4) | 1, 1, 0, modifiers, keycode, 0, 0]\<close> and the flash commit, each
  behind the report id; under report id 0 (Legacy) it writes exactly two, the key packet
  with type byte 1 whatever the layer, and the flash commit.
\<close>

theorem set_basic_key_frames:
  assumes "device s = Some d"
  shows "(report_id s \<noteq> 0
          \<and> accepts d (Suc (length (frames d)))
               [report_id s, pk, push_bit 4 l OR 1, 1, 0, m, kc, 0, 0]
        \<longrightarrow> frames_sent (snd (set_basic_key s pk kc m l)) =
              frames d @
              [[report_id s, 0xA1, (if l < 1 then 1 else l), 0, 0, 0, 0, 0, 0],
               [report_id s, pk, push_bit 4 l OR 1, 1, 0, m, kc, 0, 0],
               [report_id s, 0xAA, 0xAA, 0, 0, 0, 0, 0, 0]])
       \<and> (report_id s = 0
          \<and> accepts d (length (frames d)) [0, pk, 1, 1, 0, m, kc, 0, 0]
        \<longrightarrow> frames_sent (snd (set_basic_key s pk kc m l)) =
              frames d @
              [[0, pk, 1, 1, 0, m, kc, 0, 0],
               [0, 0xAA, 0xAA, 0, 0, 0, 0, 0, 0]])"
  using assms by (simp add: set_basic_key_open frames_sent_def Let_def)

theorem set_basic_key_frames_witness:
  "frames_sent (snd (set_basic_key \<lparr>device = Some fresh_device, report_id = 3\<rparr> 5 4 3 2)) =
     [[3, 0xA1, 2, 0, 0, 0, 0, 0, 0], [3, 5, 0x21, 1, 0, 3, 4, 0, 0],
      [3, 0xAA, 0xAA, 0, 0, 0, 0, 0, 0]]
   \<and> frames_sent (snd (set_basic_key \<lparr>device = Some fresh_device, report_id = 0\<rparr> 5 4 3 2)) =
     [[0, 5, 1, 1, 0, 3, 4, 0, 0], [0, 0xAA, 0xAA, 0, 0, 0, 0, 0, 0]]"
proof -
  have a: "device \<lparr>device = Some fresh_device, report_id = 3\<rparr> = Some fresh_device"
    and b: "device \<lparr>device = Some fresh_device, report_id = 0\<rparr> = Some fresh_device"
    by simp_all
  have c: "push_bit 4 (2::int) OR 1 = 0x21" by simp
  from set_basic_key_frames [OF a, of 5 2 3 4] set_basic_key_frames [OF b, of 5 2 3 4] c
  show ?thesis by (simp add: fresh_device_def)
qed

text \<open>
  C5. On a connected session whose device takes the LED packet, \<open>set_led_mode\<close> writes
  exactly two frames under every report id: \<open>[0xB0, 8, mode, 0, 0, 0, 0, 0]\<close> and the
  flash commit \<open>[0xAA, 0xA1, 0, 0, 0, 0, 0, 0]\<close>, each behind the report id. There is no
  layer switch, and the second byte of the commit is \<open>0xA1\<close>, not \<open>0xAA\<close>.
\<close>

theorem set_led_mode_frames:
  assumes "device s = Some d"
    and "accepts d (length (frames d)) [report_id s, 0xB0, 8, mode, 0, 0, 0, 0, 0]"
  shows "frames_sent (snd (set_led_mode s mode)) =
           frames d @
           [[report_id s, 0xB0, 8, mode, 0, 0, 0, 0, 0],
            [report_id s, 0xAA, 0xA1, 0, 0, 0, 0, 0, 0]]"
  using assms by (simp add: set_led_mode_open frames_sent_def Let_def)

theorem set_led_mode_frames_witness:
  "frames_sent (snd (set_led_mode \<lparr>device = Some fresh_device, report_id = 0\<rparr> 2)) =
     [[0, 0xB0, 8, 2, 0, 0, 0, 0, 0], [0, 0xAA, 0xA1, 0, 0, 0, 0, 0, 0]]"
proof -
  have a: "device \<lparr>device = Some fresh_device, report_id = 0\<rparr> = Some fresh_device"
    by simp
  have b: "accepts fresh_device (length (frames fresh_device))
             [report_id \<lparr>device = Some fresh_device, report_id = 0\<rparr>, 0xB0, 8, 2, 0, 0, 0, 0, 0]"
    by (simp add: fresh_device_def)
  from set_led_mode_frames [OF a b] show ?thesis by (simp add: fresh_device_def)
qed

text \<open>
  C4. \<open>detect_version\<close> on an open device probes with \<open>[rid, 0, 0, 0, 0, 0, 0, 0, 0]\<close>
  for \<open>rid\<close> = 3, then 0, then 2, stops at the first probe the device takes and stores
  that report id; when the device takes none, it stores 3. The outcome is a function of
  the device: one that refuses the probe under 3 and takes the probe under 0 always gives
  report id 0, and no later \<open>set_basic_key\<close>, \<open>set_media_key\<close> or \<open>set_led_mode\<close>
  changes the report id.
\<close>

theorem detect_version_order:
  assumes "device s = Some d"
  shows "detect_version s =
    (let n = length (frames d);
         p3 = 3 # replicate 8 0; p0 = 0 # replicate 8 0; p2 = 2 # replicate 8 0
     in if accepts d n p3
        then s\<lparr>device := Some (d\<lparr>frames := frames d @ [p3]\<rparr>), report_id := 3\<rparr>
        else if accepts d (n + 1) p0
        then s\<lparr>device := Some (d\<lparr>frames := frames d @ [p3, p0]\<rparr>), report_id := 0\<rparr>
        else if accepts d (n + 2) p2
        then s\<lparr>device := Some (d\<lparr>frames := frames d @ [p3, p0, p2]\<rparr>), report_id := 2\<rparr>
        else s\<lparr>device := Some (d\<lparr>frames := frames d @ [p3, p0, p2]\<rparr>), report_id := 3\<rparr>)
    \<and> (\<not> accepts d (length (frames d)) (3 # replicate 8 0)
        \<and> accepts d (length (frames d) + 1) (0 # replicate 8 0)
       \<longrightarrow> report_id (detect_version s) = 0
         \<and> report_id (snd (set_basic_key (detect_version s) pk kc m l)) = 0
         \<and> report_id (snd (set_media_key (detect_version s) pk mc l)) = 0
         \<and> report_id (snd (set_led_mode (detect_version s) mode)) = 0)"
  using assms
  by (simp add: detect_version_def detect_loop_3_0_2 Let_def report_id_set_basic_key
      report_id_set_media_key report_id_set_led_mode del: detect_loop.simps)

theorem detect_version_order_witness:
  "detect_version \<lparr>device = Some \<lparr>accepts = (\<lambda>n f. hd f = 0), frames = []\<rparr>, report_id = 3\<rparr> =
     \<lparr>device = Some \<lparr>accepts = (\<lambda>n f. hd f = 0),
                      frames = [[3, 0, 0, 0, 0, 0, 0, 0, 0], [0, 0, 0, 0, 0, 0, 0, 0, 0]]\<rparr>,
      report_id = 0\<rparr>
   \<and> report_id (snd (set_basic_key
        (detect_version \<lparr>device = Some \<lparr>accepts = (\<lambda>n f. hd f = 0), frames = []\<rparr>,
                         report_id = 3\<rparr>) 1 4 0 1)) = 0"
proof -
  define d0 :: hid_device where "d0 = \<lparr>accepts = (\<lambda>n f. hd f = 0), frames = []\<rparr>"
  define s0 :: MiniKeyboard where "s0 = \<lparr>device = Some d0, report_id = 3\<rparr>"
  have a: "device s0 = Some d0"
    by (simp add: s0_def)
  have r: "replicate 8 (0::int) = [0, 0, 0, 0, 0, 0, 0, 0]"
    by (simp add: numeral_eq_Suc)
  have h: "\<not> accepts d0 (length (frames d0)) (3 # replicate 8 0)
           \<and> accepts d0 (length (frames d0) + 1) (0 # replicate 8 0)"
    by (simp add: d0_def)
  note t = detect_version_order [OF a, where pk = 1 and kc = 4 and m = 0 and l = 1
      and mc = 0 and mode = 0]
  from t h r have 1: "detect_version s0 =
      s0\<lparr>device := Some (d0\<lparr>frames := frames d0 @
            [[3, 0, 0, 0, 0, 0, 0, 0, 0], [0, 0, 0, 0, 0, 0, 0, 0, 0]]\<rparr>),
         report_id := 0\<rparr>"
    by (simp add: Let_def)
  from t h have 2: "report_id (snd (set_basic_key (detect_version s0) 1 4 0 1)) = 0"
    by blast
  from 1 2 show ?thesis
    by (simp add: s0_def d0_def)
qed

text \<open>
  C9. Every frame is nine bytes. \<open>write_report\<close> on an open device hands it one frame:
  the report id, then the first eight elements of the payload followed by eight zeros,
  which is the payload with zeros added on the right when it is shorter than eight and
  its first eight elements when it is longer. Every operation of the session,
  \<open>detect_version\<close> included, keeps all frames handed to the device at length nine.
\<close>

theorem frames_are_nine_bytes:
  assumes "nine_bytes s"
  shows "nine_bytes (snd (write_report s data))
       \<and> nine_bytes (snd (set_basic_key s pk kc m l))
       \<and> nine_bytes (snd (set_media_key s pk mc l))
       \<and> nine_bytes (snd (set_led_mode s mode))
       \<and> nine_bytes (detect_version s)
       \<and> (\<forall>d. device s = Some d \<longrightarrow>
             frames_sent (snd (write_report s data)) =
               frames d @ [report_id s # take 8 (data @ replicate 8 0)])
       \<and> length (report_id s # take 8 (data @ replicate 8 0)) = 9
       \<and> (length data \<le> 8 \<longrightarrow>
             take 8 (data @ replicate 8 0) = data @ replicate (8 - length data) 0)
       \<and> (8 \<le> length data \<longrightarrow> take 8 (data @ replicate 8 0) = take 8 data)"
proof -
  have "\<forall>d. device s = Some d \<longrightarrow>
          frames_sent (snd (write_report s data)) =
            frames d @ [report_id s # take 8 (data @ replicate 8 0)]"
    by (simp add: write_report_open frames_sent_def)
  moreover have "length (report_id s # take 8 (data @ replicate 8 0)) = 9"
    by simp
  ultimately show ?thesis
    using assms nine_bytes_write_report [of s data] nine_bytes_set_basic_key [of s pk kc m l]
      nine_bytes_set_media_key [of s pk mc l] nine_bytes_set_led_mode [of s mode]
      nine_bytes_detect_version [of s] report_padding(2,3) [of data]
    by blast
qed

theorem frames_are_nine_bytes_witness:
  "frames_sent (snd (write_report \<lparr>device = Some fresh_device, report_id = 3\<rparr> [1, 2, 3])) =
     [[3, 1, 2, 3, 0, 0, 0, 0, 0]]
   \<and> frames_sent (snd (write_report \<lparr>device = Some fresh_device, report_id = 3\<rparr>
        [1, 2, 3, 4, 5, 6, 7, 8, 9, 10])) = [[3, 1, 2, 3, 4, 5, 6, 7, 8]]
   \<and> nine_bytes (snd (set_basic_key \<lparr>device = Some fresh_device, report_id = 3\<rparr> 1 4 0 1))"
proof -
  define s0 :: MiniKeyboard where "s0 = \<lparr>device = Some fresh_device, report_id = 3\<rparr>"
  have n: "nine_bytes s0"
    by (simp add: s0_def nine_bytes_def frames_sent_def fresh_device_def)
  have d: "device s0 = Some fresh_device"
    by (simp add: s0_def)
  note t1 = frames_are_nine_bytes [OF n, where data = "[1, 2, 3]" and pk = 1 and kc = 4
      and m = 0 and l = 1 and mc = 0 and mode = 0]
  note t2 = frames_are_nine_bytes [OF n, where data = "[1, 2, 3, 4, 5, 6, 7, 8, 9, 10]"
      and pk = 1 and kc = 4 and m = 0 and l = 1 and mc = 0 and mode = 0]
  from t1 d have 1: "frames_sent (snd (write_report s0 [1, 2, 3])) =
      frames fresh_device @ [report_id s0 # take 8 ([1, 2, 3] @ replicate 8 0)]"
    by blast
  from t2 d have 2: "frames_sent (snd (write_report s0 [1, 2, 3, 4, 5, 6, 7, 8, 9, 10])) =
      frames fresh_device @
        [report_id s0 # take 8 ([1, 2, 3, 4, 5, 6, 7, 8, 9, 10] @ replicate 8 0)]"
    by blast
  from t1 have 3: "nine_bytes (snd (set_basic_key s0 1 4 0 1))"
    by blast
  have r: "replicate 8 (0::int) = [0, 0, 0, 0, 0, 0, 0, 0]"
    by (simp add: numeral_eq_Suc)
  from 1 2 3 show ?thesis
    by (simp add: s0_def fresh_device_def r)
qed

text \<open>
  The result of \<open>set_basic_key\<close> on an open device: the writes of the key packet and of
  the flash commit both returned. The write of the layer switch does not enter it.
\<close>

lemma set_basic_key_result:
  assumes "device s = Some d"
  shows "fst (set_basic_key s pk kc m l) =
    (let k = length (frames d) + (if report_id s \<noteq> 0 then 1 else 0)
     in accepts d k
          [report_id s, pk, (if report_id s = 0 then 1 else push_bit 4 l OR 1), 1, 0, m, kc, 0, 0]
        \<and> accepts d (k + 1) [report_id s, 0xAA, 0xAA, 0, 0, 0, 0, 0, 0])"
  using assms by (simp add: set_basic_key_open Let_def)

lemma set_media_key_result:
  assumes "device s = Some d"
  shows "fst (set_media_key s pk mc l) =
    (let k = length (frames d) + (if report_id s \<noteq> 0 then 1 else 0)
     in accepts d k
          [report_id s, pk, (if report_id s = 0 then 2 else push_bit 4 l OR 2), mc, 0, 0, 0, 0, 0]
        \<and> accepts d (k + 1) [report_id s, 0xAA, 0xAA, 0, 0, 0, 0, 0, 0])"
  using assms by (simp add: set_media_key_open Let_def)

text \<open>
  C2, at a device whose first write raises and whose later writes return: the layer
  switch fails, and \<open>set_basic_key\<close> and \<open>set_media_key\<close> still write the key packet
  and the flash commit and return \<open>True\<close>.
\<close>

theorem layer_switch_failure_ignored:
  "set_basic_key \<lparr>device = Some \<lparr>accepts = (\<lambda>n f. n \<noteq> 0), frames = []\<rparr>, report_id = 3\<rparr>
     1 4 0 1 =
     (True, \<lparr>device = Some \<lparr>accepts = (\<lambda>n f. n \<noteq> 0),
               frames = [[3, 0xA1, 1, 0, 0, 0, 0, 0, 0], [3, 1, 0x11, 1, 0, 0, 4, 0, 0],
                         [3, 0xAA, 0xAA, 0, 0, 0, 0, 0, 0]]\<rparr>,
             report_id = 3\<rparr>)
   \<and> set_media_key \<lparr>device = Some \<lparr>accepts = (\<lambda>n f. n \<noteq> 0), frames = []\<rparr>, report_id = 3\<rparr>
     13 233 1 =
     (True, \<lparr>device = Some \<lparr>accepts = (\<lambda>n f. n \<noteq> 0),
               frames = [[3, 0xA1, 1, 0, 0, 0, 0, 0, 0], [3, 13, 0x12, 233, 0, 0, 0, 0, 0],
                         [3, 0xAA, 0xAA, 0, 0, 0, 0, 0, 0]]\<rparr>,
             report_id = 3\<rparr>)"
  by (simp add: set_basic_key_open set_media_key_open Let_def)

text \<open>
  C3, at layer 0 under report id 3: the layer switch carries layer 1, and the key packet
  carries the type byte \<open>(0 << 4) | 1 = 0x01\<close>, computed from the layer as passed.
\<close>

theorem layer_zero_type_byte:
  "set_basic_key \<lparr>device = Some fresh_device, report_id = 3\<rparr> 1 4 0 0 =
     (True, \<lparr>device = Some (fresh_device\<lparr>frames :=
               [[3, 0xA1, 1, 0, 0, 0, 0, 0, 0], [3, 1, 0x01, 1, 0, 0, 4, 0, 0],
                [3, 0xAA, 0xAA, 0, 0, 0, 0, 0, 0]]\<rparr>),
             report_id = 3\<rparr>)"
  by (simp add: set_basic_key_open fresh_device_def Let_def)

section \<open>What the parser computes\<close>

lemma KEYCODES_distinct: "distinct (map fst KEYCODES)"
  by code_simp

lemma MEDIA_KEYCODES_distinct: "distinct (map fst MEDIA_KEYCODES)"
  by code_simp

lemma respelling_normal:
  "respelling s t \<Longrightarrow> remove_spaces (str_lower s) = remove_spaces (str_lower t)"
proof (induction s arbitrary: t)
  case Nil
  then show ?case by simp
next
  case (Cons c s)
  show ?case
  proof (cases "c = CHR '' '' \<and> respelling s t")
    case True
    then show ?thesis using Cons.IH [of t]
      by (simp add: remove_spaces_def str_lower_def char_lower_def)
  next
    case False
    with Cons.prems obtain d t' where t: "t = d # t'" and cd: "char_lower c = char_lower d"
      and r: "respelling s t'"
      by (auto split: list.splits)
    from Cons.IH [OF r] cd show ?thesis
      by (simp add: t remove_spaces_def str_lower_def)
  qed
qed

lemma respelling_parse: "respelling s t \<Longrightarrow> parse_key_combo s = parse_key_combo t"
  by (simp add: parse_key_combo_def combo_parts_def respelling_normal)

lemma or_flag_range:
  fixes m :: int
  assumes "0 \<le> m" "m \<le> 15" "0 \<le> b" "b \<le> 15"
  shows "0 \<le> m OR b \<and> m OR b \<le> 15"
proof -
  have "m OR b < 2 ^ 4"
    using assms by (intro OR_upper) simp_all
  with assms show ?thesis by simp
qed

lemma combo_step_range:
  assumes "0 \<le> fst st" "fst st \<le> 15"
  shows "0 \<le> fst (combo_step st part) \<and> fst (combo_step st part) \<le> 15"
proof (cases st)
  case (Pair m k)
  with assms have m: "0 \<le> m" "m \<le> 15" by simp_all
  show ?thesis
    using or_flag_range [OF m, of 1] or_flag_range [OF m, of 2]
      or_flag_range [OF m, of 4] or_flag_range [OF m, of 8] m
    by (simp add: Pair split: option.splits)
qed

lemma foldl_combo_step_range:
  "0 \<le> fst st \<Longrightarrow> fst st \<le> 15 \<Longrightarrow>
   0 \<le> fst (foldl combo_step st ps) \<and> fst (foldl combo_step st ps) \<le> 15"
proof (induction ps arbitrary: st)
  case Nil
  then show ?case by simp
next
  case (Cons p ps)
  from combo_step_range [OF Cons.prems, of p] Cons.IH [of "combo_step st p"]
  show ?case by simp
qed

lemma low_nibble_and:
  fixes m :: int
  assumes "0 \<le> m" "m \<le> 15"
  shows "m AND 16 = 0 \<and> m AND 32 = 0 \<and> m AND 64 = 0 \<and> m AND 128 = 0"
proof -
  from assms have "m = 0 \<or> m = 1 \<or> m = 2 \<or> m = 3 \<or> m = 4 \<or> m = 5 \<or> m = 6 \<or> m = 7
      \<or> m = 8 \<or> m = 9 \<or> m = 10 \<or> m = 11 \<or> m = 12 \<or> m = 13 \<or> m = 14 \<or> m = 15"
    by arith
  then show ?thesis
    by (elim disjE) simp_all
qed

text \<open>
  C10. For every input string the modifiers returned by \<open>parse_key_combo\<close> lie between
  0 and 15, so none of the right-side flags RCTRL, RSHIFT, RALT, RWIN (16, 32, 64, 128) is
  ever set.
\<close>

theorem parse_modifiers_range:
  "0 \<le> fst (parse_key_combo s) \<and> fst (parse_key_combo s) \<le> 15
   \<and> fst (parse_key_combo s) AND Modifier_value RCTRL = 0
   \<and> fst (parse_key_combo s) AND Modifier_value RSHIFT = 0
   \<and> fst (parse_key_combo s) AND Modifier_value RALT = 0
   \<and> fst (parse_key_combo s) AND Modifier_value RWIN = 0"
proof -
  have r: "0 \<le> fst (parse_key_combo s) \<and> fst (parse_key_combo s) \<le> 15"
    unfolding parse_key_combo_def by (rule foldl_combo_step_range) simp_all
  with low_nibble_and [of "fst (parse_key_combo s)"] show ?thesis
    by simp
qed

theorem parse_modifiers_range_witness:
  "fst (parse_key_combo ''ctrl+shift+alt+win+a'') = 15
   \<and> fst (parse_key_combo ''ctrl+shift+alt+win+a'') AND Modifier_value RCTRL = 0"
proof -
  have "parse_key_combo ''ctrl+shift+alt+win+a'' = (15, 4)"
    by code_simp
  with parse_modifiers_range [of "''ctrl+shift+alt+win+a''"] show ?thesis
    by simp
qed

lemma fst_combo_step:
  "fst (combo_step st part) =
     (case modifier_flag part of None \<Rightarrow> fst st | Some f \<Rightarrow> fst st OR Modifier_value f)"
  by (cases st) (simp add: modifier_flag_def split: option.splits)

lemma snd_combo_step_modifier:
  "modifier_flag part \<noteq> None \<Longrightarrow> snd (combo_step st part) = snd st"
  by (cases st) (auto simp: modifier_flag_def split: if_splits)

lemma snd_combo_step_key:
  "modifier_flag part = None \<Longrightarrow> map_of KEYCODES part = Some k \<Longrightarrow>
   snd (combo_step st part) = k"
  by (cases st) (simp add: modifier_flag_def split: if_splits)

lemma combo_step_unrecognized:
  "\<not> recognized part \<Longrightarrow> combo_step (0, 0) part = (0, 0)"
  by (simp add: recognized_def modifier_flag_def split: if_splits)

lemma fst_foldl_combo_step:
  "fst (foldl combo_step st ps) =
     foldl (OR) (fst st) (map Modifier_value (List.map_filter modifier_flag ps))"
proof (induction ps arbitrary: st)
  case Nil
  show ?case by simp
next
  case (Cons p ps)
  show ?case
    by (simp add: Cons.IH fst_combo_step del: combo_step.simps split: option.splits)
qed

lemma snd_foldl_modifiers:
  "\<forall>q \<in> set qs. modifier_flag q \<noteq> None \<Longrightarrow> snd (foldl combo_step st qs) = snd st"
proof (induction qs arbitrary: st)
  case Nil
  show ?case by simp
next
  case (Cons q qs)
  then show ?case by (simp add: snd_combo_step_modifier del: combo_step.simps)
qed

lemma foldl_unrecognized:
  "\<forall>p \<in> set ps. \<not> recognized p \<Longrightarrow> foldl combo_step (0, 0) ps = (0, 0)"
  by (induction ps) (simp_all add: combo_step_unrecognized del: combo_step.simps)

lemma media_keys:
  "map_of MEDIA_KEYCODES t \<noteq> None \<Longrightarrow>
   t \<in> {''play'', ''pause'', ''playpause'', ''stop'', ''prev'', ''previous'', ''next'',
        ''mute'', ''volup'', ''volumeup'', ''voldown'', ''volumedown''}"
  by (simp add: MEDIA_KEYCODES_def split: if_splits)

lemma parse_media_names:
  "parse_key_combo ''play'' = (0, 0)" "parse_key_combo ''playpause'' = (0, 0)"
  "parse_key_combo ''stop'' = (0, 0)" "parse_key_combo ''prev'' = (0, 0)"
  "parse_key_combo ''previous'' = (0, 0)" "parse_key_combo ''next'' = (0, 0)"
  "parse_key_combo ''mute'' = (0, 0)" "parse_key_combo ''volup'' = (0, 0)"
  "parse_key_combo ''volumeup'' = (0, 0)" "parse_key_combo ''voldown'' = (0, 0)"
  "parse_key_combo ''volumedown'' = (0, 0)"
  by code_simp+

text \<open>
  C6. \<open>parse_key_combo\<close> lower-cases its input, removes the spaces and splits at
  \<open>+\<close>. The modifiers it returns are the flags of all modifier names among the parts, ORed
  together; a key name of the keycode table that is followed by modifier names only gives
  its code as the keycode. \<open>ctrl+shift+a\<close> parses to modifiers 3 and keycode 4, and so
  does every respelling of it with other letter case or inserted spaces.
\<close>

theorem parse_ctrl_shift_a:
  "parse_key_combo ''ctrl+shift+a'' = (3, 4)
   \<and> (respelling s ''ctrl+shift+a'' \<longrightarrow> parse_key_combo s = (3, 4))
   \<and> fst (parse_key_combo s) =
       foldl (OR) 0 (map Modifier_value (List.map_filter modifier_flag (combo_parts s)))
   \<and> (\<forall>ps part qs k.
         combo_parts s = ps @ [part] @ qs \<and> modifier_flag part = None
         \<and> map_of KEYCODES part = Some k \<and> (\<forall>q \<in> set qs. modifier_flag q \<noteq> None)
         \<longrightarrow> snd (parse_key_combo s) = k)"
proof -
  have a: "parse_key_combo ''ctrl+shift+a'' = (3, 4)"
    by code_simp
  have b: "respelling s ''ctrl+shift+a'' \<longrightarrow> parse_key_combo s = (3, 4)"
    using respelling_parse [of s "''ctrl+shift+a''"] a by simp
  have c: "fst (parse_key_combo s) =
      foldl (OR) 0 (map Modifier_value (List.map_filter modifier_flag (combo_parts s)))"
    by (simp add: parse_key_combo_def fst_foldl_combo_step)
  have d: "snd (parse_key_combo s) = k"
    if "combo_parts s = ps @ [part] @ qs" "modifier_flag part = None"
      "map_of KEYCODES part = Some k" "\<forall>q \<in> set qs. modifier_flag q \<noteq> None"
    for ps part qs k
    using that
    by (simp add: parse_key_combo_def snd_foldl_modifiers snd_combo_step_key
        del: combo_step.simps)
  from a b c d show ?thesis by blast
qed

theorem parse_ctrl_shift_a_witness:
  "respelling ''Ctrl + SHIFT+ A'' ''ctrl+shift+a''
   \<and> parse_key_combo ''Ctrl + SHIFT+ A'' = (3, 4)
   \<and> combo_parts ''A + Ctrl'' = [] @ [''a''] @ [''ctrl'']
   \<and> parse_key_combo ''A + Ctrl'' = (1, 4)"
proof -
  have r: "respelling ''Ctrl + SHIFT+ A'' ''ctrl+shift+a''"
    by code_simp
  have p: "combo_parts ''A + Ctrl'' = [] @ [''a''] @ [''ctrl'']"
    by code_simp
  have h: "modifier_flag ''a'' = None" "map_of KEYCODES ''a'' = Some 4"
    "\<forall>q \<in> set [''ctrl'']. modifier_flag q \<noteq> None"
    by (simp_all add: modifier_flag_def KEYCODES_def)
  from parse_ctrl_shift_a [of "''Ctrl + SHIFT+ A''"] r
  have 1: "parse_key_combo ''Ctrl + SHIFT+ A'' = (3, 4)"
    by blast
  from parse_ctrl_shift_a [of "''A + Ctrl''"] p h
  have 2: "snd (parse_key_combo ''A + Ctrl'') = 4"
    by blast
  from parse_ctrl_shift_a [of "''A + Ctrl''"]
  have "fst (parse_key_combo ''A + Ctrl'') =
      foldl (OR) 0 (map Modifier_value (List.map_filter modifier_flag (combo_parts ''A + Ctrl'')))"
    by blast
  then have 3: "fst (parse_key_combo ''A + Ctrl'') = 1"
    by (simp add: p modifier_flag_def)
  from r p 1 2 3 show ?thesis
    by (simp add: prod_eq_iff)
qed

lemma combo_step_passed_over:
  assumes "passed_over part"
  shows "combo_step st part = st"
proof -
  from assms have m: "modifier_flag part = None" and k: "map_of KEYCODES part = None"
    and a: "\<not> (length part = 1 \<and> str_isalpha part)"
    by (simp_all add: passed_over_def recognized_def)
  from m have n: "part \<noteq> ''ctrl''" "part \<noteq> ''control''" "part \<noteq> ''shift''"
    "part \<noteq> ''alt''" "part \<noteq> ''win''" "part \<noteq> ''super''" "part \<noteq> ''meta''"
    "part \<noteq> ''gui''"
    by (simp_all add: modifier_flag_def split: if_splits)
  obtain mods key where st: "st = (mods, key)"
    by (cases st)
  from a have "combo_step (mods, key) part = (mods, key)"
    by (simp only: combo_step.simps n k if_False option.case simp_thms)
  then show ?thesis
    by (simp only: st)
qed

lemma foldl_filter_passed_over:
  "foldl combo_step st (filter (\<lambda>p. \<not> passed_over p) ps) = foldl combo_step st ps"
  by (induction ps arbitrary: st) (simp_all add: combo_step_passed_over del: combo_step.simps)

lemma combo_step_exc_eq: "combo_step_exc st part = Inr (combo_step st part)"
proof -
  obtain mods key where st: "st = (mods, key)"
    by (cases st)
  show ?thesis
  proof (cases "map_of KEYCODES part")
    case None
    then show ?thesis
      by (simp add: st dict_contains_def dict_get_def)
  next
    case (Some v)
    then show ?thesis
      by (simp add: st dict_contains_def dict_subscript_def)
  qed
qed

lemma combo_loop_exc_eq: "combo_loop_exc st ps = Inr (foldl combo_step st ps)"
  by (induction ps arbitrary: st)
     (simp_all add: combo_step_exc_eq del: combo_step.simps combo_step_exc.simps)

text \<open>
  C7, as claimed, fails twice. \<open>pause\<close> is a key of \<^verbatim>\<open>MEDIA_KEYCODES\<close> and of
  \<^verbatim>\<open>KEYCODES\<close>, and the parser resolves it to keycode 72. And the unrecognized part
  made of the letter e with an acute accent (U+00E9), a single alphabetic character, is
  not passed over: after \<open>a\<close> it puts the keycode back to 0.
\<close>

theorem parse_pause_and_lone_letter:
  "map_of MEDIA_KEYCODES ''pause'' = Some 205
   \<and> parse_key_combo ''pause'' = (0, 72)
   \<and> \<not> recognized [CHR 0xE9]
   \<and> parse_key_combo ''a'' = (0, 4)
   \<and> parse_key_combo (''a+'' @ [CHR 0xE9]) = (0, 0)"
proof -
  have 1: "map_of MEDIA_KEYCODES ''pause'' = Some 205"
    by (simp add: MEDIA_KEYCODES_def)
  have 2: "parse_key_combo ''pause'' = (0, 72)"
    by code_simp
  have 3: "\<not> recognized [CHR 0xE9]"
    by (simp add: recognized_def modifier_flag_def KEYCODES_def)
  have 4: "parse_key_combo ''a'' = (0, 4)"
    by code_simp
  have 5: "parse_key_combo (''a+'' @ [CHR 0xE9]) = (0, 0)"
    by code_simp
  from 1 2 3 4 5 show ?thesis by simp
qed

text \<open>
  C7, amended. An unrecognized part (neither a modifier name nor a key of
  \<^verbatim>\<open>KEYCODES\<close>) that is not a single alphabetic character is passed over: the result is
  that of the parts without it. An input all of whose parts are unrecognized parses to
  \<open>(0, 0)\<close>; so do \<open>unknownxyz\<close>, \<open>volup\<close> and every other key of
  \<^verbatim>\<open>MEDIA_KEYCODES\<close> except \<open>pause\<close>, which parses to keycode 72. The parser never
  raises: with the subscription \<^verbatim>\<open>KEYCODES[part]\<close> modelled as raising on a missing
  key, every input still gives a result, the one of \<open>parse_key_combo\<close>.
\<close>

theorem unrecognized_parts_give_zero:
  "parse_key_combo s =
     foldl combo_step (0, 0) (filter (\<lambda>p. \<not> passed_over p) (combo_parts s))
   \<and> (\<forall>ps u qs s'.
         combo_parts s = ps @ [u] @ qs \<and> passed_over u \<and> combo_parts s' = ps @ qs
         \<longrightarrow> parse_key_combo s = parse_key_combo s')
   \<and> ((\<forall>part \<in> set (combo_parts s). \<not> recognized part) \<longrightarrow> parse_key_combo s = (0, 0))
   \<and> parse_key_combo ''unknownxyz'' = (0, 0)
   \<and> parse_key_combo ''volup'' = (0, 0)
   \<and> (map_of MEDIA_KEYCODES t \<noteq> None \<and> t \<noteq> ''pause'' \<longrightarrow> parse_key_combo t = (0, 0))
   \<and> parse_key_combo ''pause'' = (0, 72)
   \<and> parse_key_combo_exc s = Inr (parse_key_combo s)"
proof -
  have i: "parse_key_combo s =
      foldl combo_step (0, 0) (filter (\<lambda>p. \<not> passed_over p) (combo_parts s))"
    by (simp add: parse_key_combo_def foldl_filter_passed_over)
  have j: "parse_key_combo s = parse_key_combo s'"
    if "combo_parts s = ps @ [u] @ qs" "passed_over u" "combo_parts s' = ps @ qs"
    for ps u qs s'
    using that by (simp add: parse_key_combo_def combo_step_passed_over del: combo_step.simps)
  have a: "(\<forall>part \<in> set (combo_parts s). \<not> recognized part) \<longrightarrow> parse_key_combo s = (0, 0)"
    by (simp add: parse_key_combo_def foldl_unrecognized)
  have b: "parse_key_combo ''unknownxyz'' = (0, 0)"
    by code_simp
  have c: "parse_key_combo t = (0, 0)" if "map_of MEDIA_KEYCODES t \<noteq> None" "t \<noteq> ''pause''"
    using media_keys [OF that(1)] that(2) parse_media_names by blast
  have d: "parse_key_combo ''pause'' = (0, 72)"
    by code_simp
  have e: "parse_key_combo_exc s = Inr (parse_key_combo s)"
    by (simp add: parse_key_combo_exc_def parse_key_combo_def combo_loop_exc_eq)
  from i j a b c d e parse_media_names(8) show ?thesis by blast
qed

theorem unrecognized_parts_give_zero_witness:
  "combo_parts ''Ctrl + foo + a'' = [''ctrl''] @ [''foo''] @ [''a'']
   \<and> passed_over ''foo''
   \<and> combo_parts ''ctrl+a'' = [''ctrl''] @ [''a'']
   \<and> parse_key_combo ''Ctrl + foo + a'' = (1, 4)
   \<and> parse_key_combo_exc ''Ctrl + foo + a'' = Inr (1, 4)
   \<and> combo_parts ''Foo + bar'' = [''foo'', ''bar'']
   \<and> \<not> recognized ''foo'' \<and> \<not> recognized ''bar''
   \<and> parse_key_combo ''Foo + bar'' = (0, 0)
   \<and> map_of MEDIA_KEYCODES ''mute'' = Some 226
   \<and> parse_key_combo ''mute'' = (0, 0)"
proof -
  have q: "combo_parts ''Ctrl + foo + a'' = [''ctrl''] @ [''foo''] @ [''a'']"
    by code_simp
  have q': "combo_parts ''ctrl+a'' = [''ctrl''] @ [''a'']"
    by code_simp
  have p: "combo_parts ''Foo + bar'' = [''foo'', ''bar'']"
    by code_simp
  have u: "\<not> recognized ''foo''" "\<not> recognized ''bar''"
    by (simp_all add: recognized_def modifier_flag_def KEYCODES_def)
  have v: "passed_over ''foo''"
    by (simp add: passed_over_def u)
  have m: "map_of MEDIA_KEYCODES ''mute'' = Some 226"
    by (simp add: MEDIA_KEYCODES_def)
  have k: "parse_key_combo ''ctrl+a'' = (1, 4)"
    by code_simp
  note t1 = unrecognized_parts_give_zero [of "''Ctrl + foo + a''" "''mute''"]
  note t2 = unrecognized_parts_give_zero [of "''Foo + bar''" "''mute''"]
  note drop = t1 [THEN conjunct2, THEN conjunct1, rule_format]
  note zero = t2 [THEN conjunct2, THEN conjunct2, THEN conjunct1, THEN mp]
  note media = t2 [THEN conjunct2, THEN conjunct2, THEN conjunct2, THEN conjunct2,
      THEN conjunct2, THEN conjunct1, THEN mp]
  note total = t1 [THEN conjunct2, THEN conjunct2, THEN conjunct2, THEN conjunct2,
      THEN conjunct2, THEN conjunct2, THEN conjunct2]
  have "parse_key_combo ''Ctrl + foo + a'' = parse_key_combo ''ctrl+a''"
    by (rule drop [of "[''ctrl'']" "''foo''" "[''a'']" "''ctrl+a''"]) (intro conjI q v q')
  then have 1: "parse_key_combo ''Ctrl + foo + a'' = (1, 4)"
    by (simp only: k)
  from total have 2: "parse_key_combo_exc ''Ctrl + foo + a'' = Inr (1, 4)"
    by (simp only: 1)
  have "\<forall>part \<in> set (combo_parts ''Foo + bar''). \<not> recognized part"
    by (simp only: p list.set ball_simps u simp_thms)
  then have 3: "parse_key_combo ''Foo + bar'' = (0, 0)"
    by (rule zero)
  have "map_of MEDIA_KEYCODES ''mute'' \<noteq> None \<and> ''mute'' \<noteq> ''pause''"
    by (simp add: m)
  then have 4: "parse_key_combo ''mute'' = (0, 0)"
    by (rule media)
  show ?thesis
    by (intro conjI q v q' 1 2 p u 3 m 4)
qed

end
